theory Spec2Isabelle
  imports Main "HOL-Library.Sublist" "HOL-Library.AList" "HOL-Library.Multiset"
begin

section \<open>The content loader (src/lib/contentTypeLoader.js)\<close>

text \<open>
  The loader reads MDX files, parses their front matter, normalises date and tags, compiles
  the body and returns the records of a directory sorted by date. Everything it calls
  outside its own file (the file system, \<open>path.join\<close>, gray-matter, \<open>Date\<close>, the MDX
  compiler, \<open>parseTag\<close>) is a field of the environment record below; the two functions
  of the file are embedded over it, with every exception as a value.
\<close>

subsection \<open>JavaScript values\<close>

text \<open>
  The values a YAML front-matter block can hold, plus \<open>undefined\<close>. A \<open>Date\<close> object is
  its time value in milliseconds since the epoch, \<open>None\<close> being the NaN of an invalid date.
  Numbers are the integral ones; an object is the list of its own keys in insertion order.
\<close>

datatype jsval =
    Undefined
  | Null
  | Bool bool
  | Num int
  | Str string
  | DateObj "int option"
  | Arr "jsval list"
  | Obj "(string \<times> jsval) list"

type_synonym object = "(string \<times> jsval) list"

text \<open>Property access \<open>o.k\<close>: a missing key reads as \<open>undefined\<close>.\<close>

definition get_prop :: "object \<Rightarrow> string \<Rightarrow> jsval" where
  "get_prop obj k = (case map_of obj k of None \<Rightarrow> Undefined | Some v \<Rightarrow> v)"

text \<open>The operand tests of \<open>??\<close> and \<open>?.\<close> (nullish) and of \<open>||\<close> (truthy).\<close>

fun nullish :: "jsval \<Rightarrow> bool" where
  "nullish Undefined = True"
| "nullish Null = True"
| "nullish _ = False"

fun truthy :: "jsval \<Rightarrow> bool" where
  "truthy Undefined = False"
| "truthy Null = False"
| "truthy (Bool b) = b"
| "truthy (Num n) = (n \<noteq> 0)"
| "truthy (Str s) = (s \<noteq> [])"
| "truthy _ = True"

definition coalesce :: "jsval \<Rightarrow> jsval \<Rightarrow> jsval" where
  "coalesce v d = (if nullish v then d else v)"

definition js_or :: "jsval \<Rightarrow> jsval \<Rightarrow> jsval" where
  "js_or v d = (if truthy v then v else d)"

subsection \<open>Errors and records\<close>

text \<open>
  One constructor for each place an exception can come from; the payload is whatever the
  collaborator threw. The loader has no \<open>try\<close>/\<open>catch\<close>: an exception leaves the function
  as it is.
\<close>

datatype error =
    DirError string
  | FileError string
  | FrontMatterError string
  | CompileError string
  | TagError string
  | TypeError string

text \<open>
  The object returned by \<open>getContentBySlug\<close>. \<open>source = None\<close> is a record without the
  \<open>source\<close> key. The compiled body is opaque, a type parameter.
\<close>

record 'c content_record =
  slug :: string
  frontmatter :: object
  content :: string
  source :: "'c option"

subsection \<open>The collaborators\<close>

record 'c env =
  readdirSync :: "string \<Rightarrow> string + string list"
  readFileSync :: "string \<Rightarrow> string + string"
  path_join :: "string \<Rightarrow> string \<Rightarrow> string"
  matter :: "string \<Rightarrow> string + (object \<times> string)"
  date_parse :: "string \<Rightarrow> int option"
  utc_string :: "int \<Rightarrow> string"
  to_string :: "jsval \<Rightarrow> string"
  serialize :: "string \<Rightarrow> string + 'c"
  parseTag :: "jsval \<Rightarrow> string + jsval"

subsection \<open>Dates\<close>

text \<open>\<open>TimeClip\<close>: a time value beyond 8.64e15 ms is NaN.\<close>

definition time_clip :: "int \<Rightarrow> int option" where
  "time_clip n = (if \<bar>n\<bar> \<le> 8640000000000000 then Some n else None)"

text \<open>
  \<open>new Date(v)\<close> with one argument: a Date is copied, a string goes through \<open>Date.parse\<close>,
  anything else through \<open>ToNumber\<close> (\<open>undefined\<close> is NaN, \<open>null\<close> is 0); an array or object
  is first turned into a string.
\<close>

fun new_Date :: "'c env \<Rightarrow> jsval \<Rightarrow> int option" where
  "new_Date E Undefined = None"
| "new_Date E Null = Some 0"
| "new_Date E (Bool b) = Some (if b then 1 else 0)"
| "new_Date E (Num n) = time_clip n"
| "new_Date E (Str s) = date_parse E s"
| "new_Date E (DateObj t) = t"
| "new_Date E (Arr xs) = date_parse E (to_string E (Arr xs))"
| "new_Date E (Obj kvs) = date_parse E (to_string E (Obj kvs))"

text \<open>\<open>Date.prototype.toUTCString\<close>: the string \<open>Invalid Date\<close> for NaN.\<close>

definition toUTCString :: "'c env \<Rightarrow> int option \<Rightarrow> string" where
  "toUTCString E tv = (case tv of None \<Rightarrow> ''Invalid Date'' | Some t \<Rightarrow> utc_string E t)"

subsection \<open>getContentBySlug\<close>

text \<open>\<open>slug.replace(/\.mdx$/, '')\<close>: one trailing \<open>.mdx\<close> is removed.\<close>

definition strip_mdx :: "string \<Rightarrow> string" where
  "strip_mdx s = (if suffix ''.mdx'' s then take (length s - 4) s else s)"

definition fullPath :: "'c env \<Rightarrow> string \<Rightarrow> string \<Rightarrow> string" where
  "fullPath E slugArg directory = path_join E directory (strip_mdx slugArg @ ''.mdx'')"

text \<open>\<open>tags.map((tag) => parseTag(tag))\<close>: left to right, the first exception ends it.\<close>

fun map_tags :: "(jsval \<Rightarrow> string + jsval) \<Rightarrow> jsval list \<Rightarrow> error + jsval list" where
  "map_tags f [] = Inr []"
| "map_tags f (t # ts) =
     (case f t of
        Inl m \<Rightarrow> Inl (TagError m)
      | Inr v \<Rightarrow> (case map_tags f ts of Inl e \<Rightarrow> Inl e | Inr vs \<Rightarrow> Inr (v # vs)))"

text \<open>
  \<open>data?.tags?.map(...) || []\<close>: a nullish \<open>tags\<close> short-circuits to \<open>undefined\<close>; an array is
  mapped; any other value has no \<open>map\<close> method and the call throws a TypeError.
\<close>

definition tags_of :: "'c env \<Rightarrow> object \<Rightarrow> error + jsval" where
  "tags_of E data =
     (case get_prop data ''tags'' of
        Undefined \<Rightarrow> Inr (js_or Undefined (Arr []))
      | Null \<Rightarrow> Inr (js_or Undefined (Arr []))
      | Arr ts \<Rightarrow>
          (case map_tags (parseTag E) ts of
             Inl e \<Rightarrow> Inl e
           | Inr vs \<Rightarrow> Inr (js_or (Arr vs) (Arr [])))
      | _ \<Rightarrow> Inl (TypeError ''data.tags.map is not a function''))"

text \<open>
  The object literal \<open>{...data, date: ..., tags: ..., type}\<close>: the keys of \<open>data\<close>, then the
  three assignments, each replacing the value of a key already there or adding the key.
\<close>

definition build_frontmatter :: "object \<Rightarrow> jsval \<Rightarrow> jsval \<Rightarrow> jsval \<Rightarrow> object" where
  "build_frontmatter data d tags type =
     AList.update ''type'' type (AList.update ''tags'' tags (AList.update ''date'' d data))"

definition getContentBySlug ::
  "'c env \<Rightarrow> string \<Rightarrow> string \<Rightarrow> jsval \<Rightarrow> error + 'c content_record" where
  "getContentBySlug E slugArg directory type =
     (let realSlug = strip_mdx slugArg in
      case readFileSync E (fullPath E slugArg directory) of
        Inl m \<Rightarrow> Inl (FileError m)
      | Inr fileContents \<Rightarrow>
     (case matter E fileContents of
        Inl m \<Rightarrow> Inl (FrontMatterError m)
      | Inr (data, body) \<Rightarrow>
     (let articleDate = new_Date E (get_prop data ''date'') in
      case serialize E body of
        Inl m \<Rightarrow> Inl (CompileError m)
      | Inr mdxSource \<Rightarrow>
     (case tags_of E data of
        Inl e \<Rightarrow> Inl e
      | Inr tags \<Rightarrow>
          Inr \<lparr> slug = realSlug,
                frontmatter =
                  build_frontmatter data
                    (coalesce (Str (toUTCString E articleDate)) Undefined) tags type,
                content = body,
                source = Some mdxSource \<rparr>))))"

subsection \<open>getAllContentFromDirectory\<close>

text \<open>
  \<open>slugs.map(async (slug) => await getContentBySlug(...))\<close> starts every call in listing
  order, and each call runs up to its \<open>await\<close> before the next one starts: all files are
  read and their front matter parsed first. \<open>load_each\<close> collects the results in listing
  order.
\<close>

fun load_each :: "'c env \<Rightarrow> string \<Rightarrow> jsval \<Rightarrow> string list \<Rightarrow> error + 'c content_record list" where
  "load_each E directory type [] = Inr []"
| "load_each E directory type (s # ss) =
     (case getContentBySlug E s directory type of
        Inl e \<Rightarrow> Inl e
      | Inr a \<Rightarrow>
          (case load_each E directory type ss of
             Inl e \<Rightarrow> Inl e
           | Inr as \<Rightarrow> Inr (a # as)))"

text \<open>
  A call fails before its \<open>await\<close> when the read or the front-matter parser throws; the
  compiler and the mapping of the tags come after it.
\<close>

definition fails_before_await :: "'c env \<Rightarrow> string \<Rightarrow> string \<Rightarrow> bool" where
  "fails_before_await E slugArg directory =
     (case readFileSync E (fullPath E slugArg directory) of
        Inl m \<Rightarrow> True
      | Inr fileContents \<Rightarrow>
          (case matter E fileContents of Inl m \<Rightarrow> True | Inr res \<Rightarrow> False))"

text \<open>
  \<open>Promise.all\<close>: one rejection rejects the whole, and the rejection that settles first is
  the one surfaced. A call that failed before its \<open>await\<close> is rejected already when the
  others are still waiting for the compiler, so the first such call in listing order
  wins. Among calls that fail after the \<open>await\<close> the winner depends on when the compiler
  settles; the model takes the first in listing order.
\<close>

definition promise_all ::
  "'c env \<Rightarrow> string \<Rightarrow> jsval \<Rightarrow> string list \<Rightarrow> error + 'c content_record list" where
  "promise_all E directory type slugs =
     (case find (\<lambda>s. fails_before_await E s directory) slugs of
        None \<Rightarrow> load_each E directory type slugs
      | Some s \<Rightarrow>
          (case getContentBySlug E s directory type of
             Inl e \<Rightarrow> Inl e
           | Inr a \<Rightarrow> load_each E directory type slugs))"

definition articles :: "'c env \<Rightarrow> string \<Rightarrow> jsval \<Rightarrow> error + 'c content_record list" where
  "articles E directory type =
     (case readdirSync E directory of
        Inl m \<Rightarrow> Inl (DirError m)
      | Inr slugs \<Rightarrow> promise_all E directory type slugs)"

text \<open>\<open>new Date(a?.frontmatter?.date)\<close>, the date the comparator reads off a record.\<close>

definition date_of :: "'c env \<Rightarrow> 'c content_record \<Rightarrow> int option" where
  "date_of E a = new_Date E (get_prop (frontmatter a) ''date'')"

text \<open>
  \<open>compareDesc\<close> of date-fns: -1 when the left date is the later one, 1 when it is the
  earlier one, 0 when they are equal, and NaN (\<open>None\<close>) when either date is invalid.
\<close>

definition compareDesc :: "int option \<Rightarrow> int option \<Rightarrow> int option" where
  "compareDesc l r =
     (case l of
        None \<Rightarrow> None
      | Some a \<Rightarrow>
          (case r of
             None \<Rightarrow> None
           | Some b \<Rightarrow> Some (if b < a then - 1 else if a < b then 1 else 0)))"

definition by_date :: "'c env \<Rightarrow> 'c content_record \<Rightarrow> 'c content_record \<Rightarrow> int option" where
  "by_date E a b = compareDesc (date_of E a) (date_of E b)"

text \<open>
  \<open>Array.prototype.sort(comparefn)\<close>. A NaN from the comparator counts as +0. When the
  comparator is consistent on the array, the language fixes the result: the stable sort.
  When it is not (an invalid date among records of different dates), the order is the
  engine's own, and the engine's is not the one computed here. The model is insertion
  sort, left to right: each element is moved from the end of the sorted prefix towards
  the front, past the elements it has to precede; the prefix is kept reversed. The
  general statements below about the order of the result are made only for arrays on
  which the comparator is consistent; for any array the result is a permutation.
\<close>

definition precedes :: "('a \<Rightarrow> 'a \<Rightarrow> int option) \<Rightarrow> 'a \<Rightarrow> 'a \<Rightarrow> bool" where
  "precedes cmp x y = (case cmp x y of None \<Rightarrow> False | Some v \<Rightarrow> v < 0)"

fun sort_insert :: "('a \<Rightarrow> 'a \<Rightarrow> int option) \<Rightarrow> 'a \<Rightarrow> 'a list \<Rightarrow> 'a list" where
  "sort_insert cmp x [] = [x]"
| "sort_insert cmp x (y # rs) =
     (if precedes cmp x y then y # sort_insert cmp x rs else x # y # rs)"

definition js_sort :: "('a \<Rightarrow> 'a \<Rightarrow> int option) \<Rightarrow> 'a list \<Rightarrow> 'a list" where
  "js_sort cmp xs = rev (fold (sort_insert cmp) xs [])"

text \<open>\<open>const { source: _, ...trimmedArticle } = article\<close>: the record without \<open>source\<close>.\<close>

definition trimmedArticle :: "'c content_record \<Rightarrow> 'c content_record" where
  "trimmedArticle article = article\<lparr> source := None \<rparr>"

text \<open>The parameter \<open>slim = true\<close>: an omitted argument (\<open>None\<close>) is \<open>true\<close>.\<close>

definition getAllContentFromDirectory ::
  "'c env \<Rightarrow> string \<Rightarrow> jsval \<Rightarrow> bool option \<Rightarrow> error + 'c content_record list" where
  "getAllContentFromDirectory E directory type slim_arg =
     (let slim = (case slim_arg of None \<Rightarrow> True | Some b \<Rightarrow> b) in
      case articles E directory type of
        Inl e \<Rightarrow> Inl e
      | Inr as \<Rightarrow>
          Inr (map (\<lambda>article. if slim then trimmedArticle article else article)
                 (js_sort (by_date E) as)))"

subsection \<open>The front-matter parser\<close>

text \<open>
  Modelled from the spec: the front-matter parser (\<open>matter\<close>, the gray-matter package) is
  called by \<open>getContentBySlug\<close> and its code is not among the sources. Section 4.1: the
  parser splits the raw text into a metadata block and a body; when the delimiter block
  is absent or malformed it returns the full text as body with an empty metadata object,
  and it never throws. The recogniser of the delimiter block and the reader of the
  key/value block are parameters.
\<close>

definition matter_spec ::
  "(string \<Rightarrow> (string \<times> string) option) \<Rightarrow> (string \<Rightarrow> object option) \<Rightarrow>
   string \<Rightarrow> string + (object \<times> string)" where
  "matter_spec split_block read_block txt =
     (case split_block txt of
        None \<Rightarrow> Inr ([], txt)
      | Some (block, body) \<Rightarrow>
          (case read_block block of
             None \<Rightarrow> Inr ([], txt)
           | Some data \<Rightarrow> Inr (data, body)))"

text \<open>
  Modelled from the spec: section 6 has every file begin with a front-matter block
  delimited by a boundary marker and followed by the body. This is the recogniser for a
  marker that stands on a line of its own, as in the files under \<open>content/blog\<close>: the
  first line is the marker, the block runs to the next marker line, the body is what
  follows.
\<close>

fun lines_of :: "string \<Rightarrow> string list" where
  "lines_of [] = [[]]"
| "lines_of (c # cs) =
     (if c = CHR 0x0A then [] # lines_of cs
      else (case lines_of cs of [] \<Rightarrow> [[c]] | l # ls \<Rightarrow> (c # l) # ls))"

fun unlines :: "string list \<Rightarrow> string" where
  "unlines [] = []"
| "unlines [l] = l"
| "unlines (l # ls) = l @ CHR 0x0A # unlines ls"

definition fence_split :: "string \<Rightarrow> string \<Rightarrow> (string \<times> string) option" where
  "fence_split marker txt =
     (case lines_of txt of
        [] \<Rightarrow> None
      | first # rest \<Rightarrow>
          if first \<noteq> marker then None
          else (case dropWhile (\<lambda>l. l \<noteq> marker) rest of
                  [] \<Rightarrow> None
                | _ # after \<Rightarrow>
                    Some (unlines (takeWhile (\<lambda>l. l \<noteq> marker) rest), unlines after)))"

subsection \<open>A sample site\<close>

text \<open>
  A small file system for the concrete cases below: files in the shape of the posts under
  \<open>content/blog\<close>, the two dates they use with their time values and UTC strings (the
  tables cover these dates only), a compiler that rejects a body opening an unclosed tag,
  and a tag normaliser that wraps the label.
\<close>

definition sample_files :: "(string \<times> string) list" where
  "sample_files =
     [(''blog/a.mdx'', unlines [''---'', ''date: 2020-01-01'', ''tags: [api, rest]'', ''type: blog'', ''---'', ''A'']),
      (''blog/b.mdx'', unlines [''---'', ''date: 2020-01-01'', ''---'', ''B'']),
      (''blog/c.mdx'', unlines [''---'', ''date: 2019-06-01'', ''---'', ''C'']),
      (''news/c.mdx'', unlines [''---'', ''date: 2019-06-01'', ''---'', ''C'']),
      (''news/a.mdx'', unlines [''---'', ''date: 2020-01-01'', ''---'', ''A'']),
      (''news/b.mdx'', unlines [''---'', ''date: 2020-01-01'', ''---'', ''B'']),
      (''drafts/undated.mdx'', ''No front matter.''),
      (''drafts/new.mdx'', unlines [''---'', ''date: 2020-01-01'', ''---'', ''N'']),
      (''mixed/old.mdx'', unlines [''---'', ''date: 2019-06-01'', ''---'', ''O'']),
      (''mixed/unparsable.mdx'', unlines [''---'', ''date: not-a-date'', ''---'', ''U'']),
      (''mixed/new.mdx'', unlines [''---'', ''date: 2020-01-01'', ''---'', ''N'']),
      (''books/one.mdx'', unlines [''---'', ''date: 2020-01-01'', ''---'', ''<Broken'']),
      (''talks/two.mdx'', unlines [''---'', ''date: 2020-01-01'', ''---'', ''<Broken'']),
      (''shelf/one.mdx'', unlines [''---'', ''date: 2020-01-01'', ''---'', ''<Broken''])]"

definition sample_dirs :: "(string \<times> string list) list" where
  "sample_dirs =
     [(''blog'', [''a.mdx'', ''b.mdx'', ''c.mdx'']),
      (''news'', [''c.mdx'', ''a.mdx'', ''b.mdx'']),
      (''drafts'', [''undated.mdx'', ''new.mdx'']),
      (''mixed'', [''old.mdx'', ''unparsable.mdx'', ''new.mdx'']),
      (''books'', [''one.mdx'']),
      (''talks'', [''two.mdx'']),
      (''shelf'', [''one.mdx'', ''gone.mdx''])]"

text \<open>What the YAML reader makes of the blocks above: an unquoted date is a timestamp.\<close>

definition sample_blocks :: "(string \<times> object) list" where
  "sample_blocks =
     [(unlines [''date: 2020-01-01'', ''tags: [api, rest]'', ''type: blog''],
         [(''date'', DateObj (Some 1577836800000)),
          (''tags'', Arr [Str ''api'', Str ''rest'']),
          (''type'', Str ''blog'')]),
      (''date: 2020-01-01'', [(''date'', DateObj (Some 1577836800000))]),
      (''date: 2019-06-01'', [(''date'', DateObj (Some 1559347200000))]),
      (''date: not-a-date'', [(''date'', Str ''not-a-date'')])]"

definition sample_dates :: "(string \<times> int) list" where
  "sample_dates =
     [(''Wed, 01 Jan 2020 00:00:00 GMT'', 1577836800000),
      (''Sat, 01 Jun 2019 00:00:00 GMT'', 1559347200000)]"

definition sample_utc_string :: "int \<Rightarrow> string" where
  "sample_utc_string t =
     (if t = 1577836800000 then ''Wed, 01 Jan 2020 00:00:00 GMT''
      else if t = 1559347200000 then ''Sat, 01 Jun 2019 00:00:00 GMT''
      else ''Thu, 01 Jan 1970 00:00:00 GMT'')"

definition sample_serialize :: "string \<Rightarrow> string + string" where
  "sample_serialize body =
     (if prefix ''<'' body then Inl ''Unexpected end of file in name''
      else Inr (''compiled: '' @ body))"

definition sample_env :: "string env" where
  "sample_env =
     \<lparr> readdirSync = (\<lambda>d. case map_of sample_dirs d of
                               None \<Rightarrow> Inl (''ENOENT: no such file or directory, scandir '' @ d)
                             | Some names \<Rightarrow> Inr names),
       readFileSync = (\<lambda>p. case map_of sample_files p of
                               None \<Rightarrow> Inl (''ENOENT: no such file or directory, open '' @ p)
                             | Some txt \<Rightarrow> Inr txt),
       path_join = (\<lambda>d f. d @ ''/'' @ f),
       matter = matter_spec (fence_split ''---'') (map_of sample_blocks),
       date_parse = map_of sample_dates,
       utc_string = sample_utc_string,
       to_string = (\<lambda>v. ''[object Object]''),
       serialize = sample_serialize,
       parseTag = (\<lambda>t. Inr (Obj [(''label'', t)])) \<rparr>"

text \<open>The record expected for a sample post without tags.\<close>

definition loaded :: "string \<Rightarrow> string \<Rightarrow> string \<Rightarrow> jsval \<Rightarrow> string content_record" where
  "loaded name d body ty =
     \<lparr> slug = name,
       frontmatter = [(''date'', Str d), (''tags'', Arr []), (''type'', ty)],
       content = body,
       source = Some (''compiled: '' @ body) \<rparr>"

subsection \<open>Vocabulary of the properties\<close>

text \<open>\<open>a\<close> may stand before \<open>b\<close> in a newest-first list: both dates are valid and \<open>a\<close>'s is
  not the earlier one.\<close>

definition not_older :: "'c env \<Rightarrow> 'c content_record \<Rightarrow> 'c content_record \<Rightarrow> bool" where
  "not_older E a b =
     (case date_of E a of
        None \<Rightarrow> False
      | Some x \<Rightarrow> (case date_of E b of None \<Rightarrow> False | Some y \<Rightarrow> y \<le> x))"

text \<open>What slim mode leaves of a record.\<close>

definition kept_fields :: "'c content_record \<Rightarrow> string \<times> object \<times> string" where
  "kept_fields a = (slug a, frontmatter a, content a)"

section \<open>Facts about the embedding\<close>

subsection \<open>One file\<close>

lemma getContentBySlug_Inr:
  assumes "getContentBySlug E s d ty = Inr r"
  shows "\<exists>txt data body src tags.
           readFileSync E (fullPath E s d) = Inr txt \<and> matter E txt = Inr (data, body) \<and>
           serialize E body = Inr src \<and> tags_of E data = Inr tags \<and>
           r = \<lparr> slug = strip_mdx s,
                 frontmatter = build_frontmatter data
                   (Str (toUTCString E (new_Date E (get_prop data ''date'')))) tags ty,
                 content = body, source = Some src \<rparr>"
  using assms
  by (auto simp: getContentBySlug_def Let_def coalesce_def split: sum.splits prod.splits)

lemma map_of_build_frontmatter:
  "map_of (build_frontmatter data d t ty) = (map_of data)(''date'' \<mapsto> d, ''tags'' \<mapsto> t, ''type'' \<mapsto> ty)"
  by (simp add: build_frontmatter_def update_conv')


lemma load_each_Inr:
  "load_each E d ty ss = Inr as \<Longrightarrow> list_all2 (\<lambda>s a. getContentBySlug E s d ty = Inr a) ss as"
  by (induction ss arbitrary: as) (auto split: sum.splits)

lemma load_each_Inl:
  "load_each E d ty ss = Inl e \<Longrightarrow> \<exists>s \<in> set ss. getContentBySlug E s d ty = Inl e"
  by (induction ss) (auto split: sum.splits)

lemma load_each_fails:
  "s \<in> set ss \<Longrightarrow> getContentBySlug E s d ty = Inl e0 \<Longrightarrow> \<exists>e. load_each E d ty ss = Inl e"
  by (induction ss) (auto split: sum.splits)

lemma getContentBySlug_slug: "getContentBySlug E s d ty = Inr r \<Longrightarrow> slug r = strip_mdx s"
  by (drule getContentBySlug_Inr) auto

lemma getContentBySlug_source: "getContentBySlug E s d ty = Inr r \<Longrightarrow> source r \<noteq> None"
  by (drule getContentBySlug_Inr) auto

lemma load_each_slugs: "load_each E d ty ss = Inr as \<Longrightarrow> map slug as = map strip_mdx ss"
  by (induction ss arbitrary: as) (auto split: sum.splits dest: getContentBySlug_slug)

lemma load_each_sources: "load_each E d ty ss = Inr as \<Longrightarrow> a \<in> set as \<Longrightarrow> source a \<noteq> None"
  by (induction ss arbitrary: as) (auto split: sum.splits dest: getContentBySlug_source)

lemma fails_before_await_Inl:
  "fails_before_await E s d \<Longrightarrow> \<exists>e. getContentBySlug E s d ty = Inl e"
  by (auto simp: fails_before_await_def getContentBySlug_def split: sum.splits)

lemma promise_all_Inr_iff:
  "promise_all E d ty ss = Inr as \<longleftrightarrow> load_each E d ty ss = Inr as"
proof (cases "find (\<lambda>s. fails_before_await E s d) ss")
  case None
  then show ?thesis by (simp add: promise_all_def)
next
  case (Some s)
  then have m: "s \<in> set ss" and f: "fails_before_await E s d"
    by (auto simp: find_Some_iff)
  from fails_before_await_Inl [OF f] obtain e where e: "getContentBySlug E s d ty = Inl e"
    by blast
  have "load_each E d ty ss \<noteq> Inr as"
  proof
    assume "load_each E d ty ss = Inr as"
    from load_each_Inr [OF this] m obtain a where "getContentBySlug E s d ty = Inr a"
      by (auto simp: list_all2_conv_all_nth in_set_conv_nth)
    with e show False by simp
  qed
  with Some e show ?thesis by (simp add: promise_all_def)
qed

lemma promise_all_Inl:
  assumes "promise_all E d ty ss = Inl e"
  shows "\<exists>s \<in> set ss. getContentBySlug E s d ty = Inl e"
proof (cases "find (\<lambda>s. fails_before_await E s d) ss")
  case None
  with assms show ?thesis by (simp add: promise_all_def load_each_Inl)
next
  case (Some s)
  then have m: "s \<in> set ss" and f: "fails_before_await E s d"
    by (auto simp: find_Some_iff)
  from fails_before_await_Inl [OF f] obtain e' where "getContentBySlug E s d ty = Inl e'"
    by blast
  with Some assms m show ?thesis by (auto simp: promise_all_def)
qed

lemma promise_all_fails:
  assumes "s \<in> set ss" and "getContentBySlug E s d ty = Inl e0"
  shows "\<exists>e. promise_all E d ty ss = Inl e"
proof (cases "promise_all E d ty ss")
  case (Inl e)
  then show ?thesis by blast
next
  case (Inr as)
  then have "load_each E d ty ss = Inr as" by (simp add: promise_all_Inr_iff)
  with load_each_fails [OF assms] show ?thesis by auto
qed

lemma promise_all_late:
  "find (\<lambda>s. fails_before_await E s d) ss = None \<Longrightarrow> promise_all E d ty ss = load_each E d ty ss"
  by (simp add: promise_all_def)

lemma date_of_trimmedArticle: "date_of E (trimmedArticle a) = date_of E a"
  by (simp add: date_of_def trimmedArticle_def)

lemma map_tags_Inr:
  "map_tags f raw = Inr ts \<Longrightarrow> list_all2 (\<lambda>t v. f t = Inr v) raw ts"
  by (induction raw arbitrary: ts) (auto split: sum.splits)

lemma tags_of_Inr:
  assumes "tags_of E data = Inr tags"
  shows "(nullish (get_prop data ''tags'') \<and> tags = Arr []) \<or>
         (\<exists>raw ts. get_prop data ''tags'' = Arr raw \<and> tags = Arr ts \<and>
                    list_all2 (\<lambda>t v. parseTag E t = Inr v) raw ts)"
  using assms
  by (auto simp: tags_of_def js_or_def split: jsval.splits sum.splits dest: map_tags_Inr)

subsection \<open>The sort\<close>

lemma mset_sort_insert: "mset (sort_insert cmp x rs) = add_mset x (mset rs)"
  by (induction rs) auto

lemma mset_fold_sort_insert: "mset (fold (sort_insert cmp) xs acc) = mset xs + mset acc"
  by (induction xs arbitrary: acc) (auto simp: mset_sort_insert)

lemma mset_js_sort: "mset (js_sort cmp xs) = mset xs"
  by (simp add: js_sort_def mset_fold_sort_insert)

lemma filter_sort_insert:
  assumes "\<And>x y. P x \<Longrightarrow> P y \<Longrightarrow> \<not> precedes cmp x y"
  shows "filter P (sort_insert cmp x rs) = (if P x then x # filter P rs else filter P rs)"
  using assms by (induction rs) auto

lemma filter_fold_sort_insert:
  assumes "\<And>x y. P x \<Longrightarrow> P y \<Longrightarrow> \<not> precedes cmp x y"
  shows "filter P (fold (sort_insert cmp) xs acc) = rev (filter P xs) @ filter P acc"
proof (induction xs arbitrary: acc)
  case Nil
  show ?case by simp
next
  case (Cons x xs)
  show ?case
    by (simp add: Cons.IH filter_sort_insert [of P cmp, OF assms])
qed

lemma filter_js_sort:
  assumes "\<And>x y. P x \<Longrightarrow> P y \<Longrightarrow> \<not> precedes cmp x y"
  shows "filter P (js_sort cmp xs) = filter P xs"
  by (simp add: js_sort_def rev_filter [symmetric] filter_fold_sort_insert [of P cmp, OF assms])

lemma set_sort_insert: "set (sort_insert cmp x rs) = insert x (set rs)"
  by (induction rs) auto

lemma sorted_sort_insert:
  fixes key :: "'a \<Rightarrow> int"
  assumes ord: "\<And>y. y \<in> set rs \<Longrightarrow> precedes cmp x y \<longleftrightarrow> key y < key x"
    and srt: "sorted_wrt (\<lambda>a b. key a \<le> key b) rs"
  shows "sorted_wrt (\<lambda>a b. key a \<le> key b) (sort_insert cmp x rs)"
  using assms
proof (induction rs)
  case Nil
  show ?case by simp
next
  case (Cons y rs)
  show ?case
  proof (cases "precedes cmp x y")
    case True
    with Cons.prems have lt: "key y < key x" by simp
    have "sorted_wrt (\<lambda>a b. key a \<le> key b) (sort_insert cmp x rs)"
      using Cons by simp
    moreover have "\<forall>z \<in> set (sort_insert cmp x rs). key y \<le> key z"
      using Cons.prems(2) lt by (auto simp: set_sort_insert)
    ultimately show ?thesis using True by simp
  next
    case False
    with Cons.prems have le: "key x \<le> key y" by (simp add: not_less)
    then show ?thesis using False Cons.prems(2) by auto
  qed
qed

lemma sorted_fold_sort_insert:
  fixes key :: "'a \<Rightarrow> int"
  assumes ord: "\<And>x y. x \<in> set xs \<union> set acc \<Longrightarrow> y \<in> set xs \<union> set acc \<Longrightarrow> precedes cmp x y \<longleftrightarrow> key y < key x"
    and srt: "sorted_wrt (\<lambda>a b. key a \<le> key b) acc"
  shows "sorted_wrt (\<lambda>a b. key a \<le> key b) (fold (sort_insert cmp) xs acc)"
  using assms
proof (induction xs arbitrary: acc)
  case Nil
  then show ?case by simp
next
  case (Cons x xs)
  have "sorted_wrt (\<lambda>a b. key a \<le> key b) (sort_insert cmp x acc)"
    by (rule sorted_sort_insert) (use Cons.prems in auto)
  moreover have "\<And>a b. a \<in> set xs \<union> set (sort_insert cmp x acc) \<Longrightarrow>
      b \<in> set xs \<union> set (sort_insert cmp x acc) \<Longrightarrow> precedes cmp a b \<longleftrightarrow> key b < key a"
    using Cons.prems(1) by (auto simp: set_sort_insert)
  ultimately have "sorted_wrt (\<lambda>a b. key a \<le> key b) (fold (sort_insert cmp) xs (sort_insert cmp x acc))"
    by (rule Cons.IH [rotated])
  then show ?case by simp
qed

lemma sorted_js_sort:
  fixes key :: "'a \<Rightarrow> int"
  assumes "\<And>x y. x \<in> set xs \<Longrightarrow> y \<in> set xs \<Longrightarrow> precedes cmp x y \<longleftrightarrow> key y < key x"
  shows "sorted_wrt (\<lambda>a b. key b \<le> key a) (js_sort cmp xs)"
proof -
  have "sorted_wrt (\<lambda>a b. key a \<le> key b) (fold (sort_insert cmp) xs [])"
    by (rule sorted_fold_sort_insert) (use assms in auto)
  then show ?thesis
    by (simp add: js_sort_def sorted_wrt_rev)
qed

lemma sort_insert_unmoved:
  "(\<And>y. y \<in> set rs \<Longrightarrow> \<not> precedes cmp x y) \<Longrightarrow> sort_insert cmp x rs = x # rs"
  by (cases rs) auto

lemma fold_sort_insert_unmoved:
  assumes "\<And>x y. x \<in> set xs \<Longrightarrow> y \<in> set xs \<union> set acc \<Longrightarrow> \<not> precedes cmp x y"
  shows "fold (sort_insert cmp) xs acc = rev xs @ acc"
  using assms
proof (induction xs arbitrary: acc)
  case Nil
  show ?case by simp
next
  case (Cons x xs)
  have "sort_insert cmp x acc = x # acc"
    by (rule sort_insert_unmoved) (use Cons.prems in auto)
  moreover have "fold (sort_insert cmp) xs (x # acc) = rev xs @ x # acc"
    by (rule Cons.IH) (use Cons.prems in auto)
  ultimately show ?case by simp
qed

lemma js_sort_unmoved:
  assumes "\<And>x y. x \<in> set xs \<Longrightarrow> y \<in> set xs \<Longrightarrow> \<not> precedes cmp x y"
  shows "js_sort cmp xs = xs"
proof -
  have "fold (sort_insert cmp) xs [] = rev xs @ []"
    by (rule fold_sort_insert_unmoved) (use assms in auto)
  then show ?thesis by (simp add: js_sort_def)
qed

lemma set_js_sort: "set (js_sort cmp xs) = set xs"
  by (metis mset_js_sort set_mset_mset)

subsection \<open>The whole directory\<close>

lemma getAll_of_articles:
  "articles E d ty = Inr as \<Longrightarrow>
   getAllContentFromDirectory E d ty slim_arg =
     Inr (map (\<lambda>a. if slim_arg = Some False then a else trimmedArticle a) (js_sort (by_date E) as))"
  by (cases slim_arg) (auto simp: getAllContentFromDirectory_def)

lemma getAll_Inr:
  assumes "getAllContentFromDirectory E d ty slim_arg = Inr rs"
  shows "\<exists>as. articles E d ty = Inr as \<and>
           rs = map (\<lambda>a. if slim_arg = Some False then a else trimmedArticle a)
                  (js_sort (by_date E) as)"
proof (cases "articles E d ty")
  case (Inl e)
  with assms show ?thesis by (simp add: getAllContentFromDirectory_def)
next
  case (Inr as)
  from getAll_of_articles [OF Inr, of slim_arg] assms Inr show ?thesis by simp
qed

lemma articles_Inr:
  "articles E d ty = Inr as \<Longrightarrow>
   \<exists>slugs. readdirSync E d = Inr slugs \<and> load_each E d ty slugs = Inr as"
  by (auto simp: articles_def promise_all_Inr_iff split: sum.splits)

subsection \<open>The sample site, evaluated\<close>

lemmas sample_defs =
  getContentBySlug_def fullPath_def strip_mdx_def suffix_def sample_env_def sample_files_def
  sample_blocks_def sample_dates_def sample_utc_string_def sample_serialize_def sample_dirs_def
  matter_spec_def fence_split_def tags_of_def get_prop_def build_frontmatter_def
  toUTCString_def coalesce_def js_or_def Let_def loaded_def

lemmas sort_defs =
  js_sort_def precedes_def by_date_def compareDesc_def date_of_def get_prop_def
  trimmedArticle_def sample_env_def sample_dates_def loaded_def

lemma sample_a:
  "getContentBySlug sample_env ''a.mdx'' ''blog'' ty =
     Inr \<lparr> slug = ''a'',
           frontmatter =
             [(''date'', Str ''Wed, 01 Jan 2020 00:00:00 GMT''),
              (''tags'', Arr [Obj [(''label'', Str ''api'')], Obj [(''label'', Str ''rest'')]]),
              (''type'', ty)],
           content = ''A'', source = Some ''compiled: A'' \<rparr>"
  by (simp add: sample_defs)

lemma sample_b:
  "getContentBySlug sample_env ''b.mdx'' ''blog'' ty =
     Inr (loaded ''b'' ''Wed, 01 Jan 2020 00:00:00 GMT'' ''B'' ty)"
  by (simp add: sample_defs)

lemma sample_c:
  "getContentBySlug sample_env ''c.mdx'' ''blog'' ty =
     Inr (loaded ''c'' ''Sat, 01 Jun 2019 00:00:00 GMT'' ''C'' ty)"
  by (simp add: sample_defs)

lemma sample_news:
  "getContentBySlug sample_env ''c.mdx'' ''news'' ty =
     Inr (loaded ''c'' ''Sat, 01 Jun 2019 00:00:00 GMT'' ''C'' ty)"
  "getContentBySlug sample_env ''a.mdx'' ''news'' ty =
     Inr (loaded ''a'' ''Wed, 01 Jan 2020 00:00:00 GMT'' ''A'' ty)"
  "getContentBySlug sample_env ''b.mdx'' ''news'' ty =
     Inr (loaded ''b'' ''Wed, 01 Jan 2020 00:00:00 GMT'' ''B'' ty)"
  by (simp_all add: sample_defs)

lemma sample_undated:
  "getContentBySlug sample_env ''undated'' ''drafts'' ty =
     Inr (loaded ''undated'' ''Invalid Date'' ''No front matter.'' ty)"
  by (simp add: sample_defs)

lemma sample_drafts:
  "getContentBySlug sample_env ''undated.mdx'' ''drafts'' ty =
     Inr (loaded ''undated'' ''Invalid Date'' ''No front matter.'' ty)"
  "getContentBySlug sample_env ''new.mdx'' ''drafts'' ty =
     Inr (loaded ''new'' ''Wed, 01 Jan 2020 00:00:00 GMT'' ''N'' ty)"
  by (simp_all add: sample_defs)

lemma sample_mixed:
  "getContentBySlug sample_env ''old.mdx'' ''mixed'' ty =
     Inr (loaded ''old'' ''Sat, 01 Jun 2019 00:00:00 GMT'' ''O'' ty)"
  "getContentBySlug sample_env ''unparsable.mdx'' ''mixed'' ty =
     Inr (loaded ''unparsable'' ''Invalid Date'' ''U'' ty)"
  "getContentBySlug sample_env ''new.mdx'' ''mixed'' ty =
     Inr (loaded ''new'' ''Wed, 01 Jan 2020 00:00:00 GMT'' ''N'' ty)"
  by (simp_all add: sample_defs)

lemma sample_broken:
  "getContentBySlug sample_env ''one.mdx'' ''books'' ty =
     Inl (CompileError ''Unexpected end of file in name'')"
  "getContentBySlug sample_env ''two.mdx'' ''talks'' ty =
     Inl (CompileError ''Unexpected end of file in name'')"
  by (simp_all add: sample_defs)

lemma sample_listing:
  "readdirSync sample_env ''blog'' = Inr [''a.mdx'', ''b.mdx'', ''c.mdx'']"
  "readdirSync sample_env ''news'' = Inr [''c.mdx'', ''a.mdx'', ''b.mdx'']"
  "readdirSync sample_env ''drafts'' = Inr [''undated.mdx'', ''new.mdx'']"
  "readdirSync sample_env ''mixed'' = Inr [''old.mdx'', ''unparsable.mdx'', ''new.mdx'']"
  "readdirSync sample_env ''books'' = Inr [''one.mdx'']"
  "readdirSync sample_env ''talks'' = Inr [''two.mdx'']"
  by (simp_all add: sample_env_def sample_dirs_def)

text \<open>
  In \<open>shelf\<close> the first post does not compile and the second file is not there: the failed
  read is settled first and is the error surfaced.
\<close>

lemma sample_shelf:
  "getAllContentFromDirectory sample_env ''shelf'' ty slim_arg =
     Inl (FileError ''ENOENT: no such file or directory, open shelf/gone.mdx'')"
proof -
  have l: "readdirSync sample_env ''shelf'' = Inr [''one.mdx'', ''gone.mdx'']"
    by (simp add: sample_env_def sample_dirs_def)
  have f: "find (\<lambda>s. fails_before_await sample_env s ''shelf'') [''one.mdx'', ''gone.mdx''] =
             Some ''gone.mdx''"
    by (simp add: fails_before_await_def sample_defs)
  have g: "getContentBySlug sample_env ''gone.mdx'' ''shelf'' ty =
             Inl (FileError ''ENOENT: no such file or directory, open shelf/gone.mdx'')"
    by (simp add: sample_defs)
  have "promise_all sample_env ''shelf'' ty [''one.mdx'', ''gone.mdx''] =
          Inl (FileError ''ENOENT: no such file or directory, open shelf/gone.mdx'')"
    by (simp only: promise_all_def f g option.case sum.case)
  then show ?thesis
    by (simp add: getAllContentFromDirectory_def articles_def l)
qed

lemma sample_blog_articles:
  "articles sample_env ''blog'' ty =
     Inr [\<lparr> slug = ''a'',
            frontmatter =
              [(''date'', Str ''Wed, 01 Jan 2020 00:00:00 GMT''),
               (''tags'', Arr [Obj [(''label'', Str ''api'')], Obj [(''label'', Str ''rest'')]]),
               (''type'', ty)],
            content = ''A'', source = Some ''compiled: A'' \<rparr>,
          loaded ''b'' ''Wed, 01 Jan 2020 00:00:00 GMT'' ''B'' ty,
          loaded ''c'' ''Sat, 01 Jun 2019 00:00:00 GMT'' ''C'' ty]"
  by (simp add: articles_def sample_listing promise_all_Inr_iff sample_a sample_b sample_c)

lemma sample_news_articles:
  "articles sample_env ''news'' ty =
     Inr [loaded ''c'' ''Sat, 01 Jun 2019 00:00:00 GMT'' ''C'' ty,
          loaded ''a'' ''Wed, 01 Jan 2020 00:00:00 GMT'' ''A'' ty,
          loaded ''b'' ''Wed, 01 Jan 2020 00:00:00 GMT'' ''B'' ty]"
  by (simp add: articles_def sample_listing promise_all_Inr_iff sample_news)

lemma sample_drafts_articles:
  "articles sample_env ''drafts'' ty =
     Inr [loaded ''undated'' ''Invalid Date'' ''No front matter.'' ty,
          loaded ''new'' ''Wed, 01 Jan 2020 00:00:00 GMT'' ''N'' ty]"
  by (simp add: articles_def sample_listing promise_all_Inr_iff sample_drafts)

lemma sample_mixed_articles:
  "articles sample_env ''mixed'' ty =
     Inr [loaded ''old'' ''Sat, 01 Jun 2019 00:00:00 GMT'' ''O'' ty,
          loaded ''unparsable'' ''Invalid Date'' ''U'' ty,
          loaded ''new'' ''Wed, 01 Jan 2020 00:00:00 GMT'' ''N'' ty]"
  by (simp add: articles_def sample_listing promise_all_Inr_iff sample_mixed)

lemma sample_a_text:
  "readFileSync sample_env (fullPath sample_env ''a.mdx'' ''blog'') =
     Inr (unlines [''---'', ''date: 2020-01-01'', ''tags: [api, rest]'', ''type: blog'', ''---'', ''A''])"
  by (simp add: sample_defs)

lemma sample_a_matter:
  "matter sample_env
     (unlines [''---'', ''date: 2020-01-01'', ''tags: [api, rest]'', ''type: blog'', ''---'', ''A'']) =
     Inr ([(''date'', DateObj (Some 1577836800000)), (''tags'', Arr [Str ''api'', Str ''rest'']),
           (''type'', Str ''blog'')], ''A'')"
  by (simp add: sample_defs)

lemma sample_undated_text:
  "readFileSync sample_env (fullPath sample_env ''undated'' ''drafts'') = Inr ''No front matter.''"
  by (simp add: sample_defs)

lemma sample_undated_matter:
  "matter sample_env ''No front matter.'' = Inr ([], ''No front matter.'')"
  by (simp add: sample_defs)

section \<open>The properties of the specification\<close>

subsection \<open>The type label\<close>

text \<open>
  Claim C6. For every file and every content-type label passed by the caller, the \<open>type\<close>
  field of the returned frontmatter is the caller's label, also when the front matter of
  the file has a \<open>type\<close> key of its own: the assignment of \<open>type\<close> comes after the spread
  of \<open>data\<close>.
\<close>

theorem type_is_callers_label:
  assumes "getContentBySlug E s d ty = Inr r"
  shows "map_of (frontmatter r) ''type'' = Some ty"
  using getContentBySlug_Inr [OF assms] by (auto simp: map_of_build_frontmatter)

text \<open>The post \<open>blog/a.mdx\<close> says \<open>type: blog\<close>; loaded as a book, it is a book.\<close>

theorem type_is_callers_label_witness:
  "map_of sample_blocks (unlines [''date: 2020-01-01'', ''tags: [api, rest]'', ''type: blog'']) =
     Some [(''date'', DateObj (Some 1577836800000)), (''tags'', Arr [Str ''api'', Str ''rest'']),
           (''type'', Str ''blog'')] \<and>
   map_sum id (\<lambda>r. map_of (frontmatter r) ''type'')
     (getContentBySlug sample_env ''a.mdx'' ''blog'' (Str ''book'')) = Inr (Some (Str ''book''))"
proof -
  note h = sample_a [of "Str ''book''"]
  from type_is_callers_label [OF h] show ?thesis
    by (simp add: h sample_blocks_def)
qed

subsection \<open>Tags\<close>

text \<open>
  Claim C7. The \<open>tags\<close> of a returned frontmatter are always an array. When the source has
  a tags list of length \<open>n\<close>, the output has length \<open>n\<close> and its \<open>i\<close>-th element is
  \<open>parseTag\<close> of the \<open>i\<close>-th source tag; when the source has no \<open>tags\<close> field, the output is
  the empty array.
\<close>

theorem tags_always_an_array:
  assumes "getContentBySlug E s d ty = Inr r"
    and "readFileSync E (fullPath E s d) = Inr txt"
    and "matter E txt = Inr (data, body)"
  shows "\<exists>ts. map_of (frontmatter r) ''tags'' = Some (Arr ts) \<and>
              (map_of data ''tags'' = None \<longrightarrow> ts = []) \<and>
              (\<forall>raw. map_of data ''tags'' = Some (Arr raw) \<longrightarrow>
                 length ts = length raw \<and>
                 (\<forall>i < length raw. parseTag E (raw ! i) = Inr (ts ! i)))"
proof -
  from getContentBySlug_Inr [OF assms(1)] assms(2,3)
  obtain tags src where t: "tags_of E data = Inr tags"
    and r: "frontmatter r = build_frontmatter data
              (Str (toUTCString E (new_Date E (get_prop data ''date'')))) tags ty"
    by auto
  from r have m: "map_of (frontmatter r) ''tags'' = Some tags"
    by (simp add: map_of_build_frontmatter)
  from tags_of_Inr [OF t] show ?thesis
  proof
    assume "nullish (get_prop data ''tags'') \<and> tags = Arr []"
    then show ?thesis using m
      by (auto simp: get_prop_def split: option.splits)
  next
    assume "\<exists>raw ts. get_prop data ''tags'' = Arr raw \<and> tags = Arr ts \<and>
                    list_all2 (\<lambda>t v. parseTag E t = Inr v) raw ts"
    then obtain raw ts where g: "get_prop data ''tags'' = Arr raw" and ts: "tags = Arr ts"
      and l: "list_all2 (\<lambda>t v. parseTag E t = Inr v) raw ts" by blast
    from l have "length ts = length raw" "\<forall>i < length raw. parseTag E (raw ! i) = Inr (ts ! i)"
      by (auto simp: list_all2_conv_all_nth)
    then show ?thesis using m ts g
      by (auto simp: get_prop_def split: option.splits)
  qed
qed

text \<open>The two tags of \<open>blog/a.mdx\<close>, in order, and the post without front matter.\<close>

theorem tags_always_an_array_witness:
  "map_sum id (\<lambda>r. map_of (frontmatter r) ''tags'')
     (getContentBySlug sample_env ''a.mdx'' ''blog'' (Str ''blog'')) =
     Inr (Some (Arr [Obj [(''label'', Str ''api'')], Obj [(''label'', Str ''rest'')]])) \<and>
   parseTag sample_env (Str ''api'') = Inr (Obj [(''label'', Str ''api'')]) \<and>
   parseTag sample_env (Str ''rest'') = Inr (Obj [(''label'', Str ''rest'')]) \<and>
   map_sum id (\<lambda>r. map_of (frontmatter r) ''tags'')
     (getContentBySlug sample_env ''undated'' ''drafts'' (Str ''blog'')) = Inr (Some (Arr []))"
proof -
  note a = tags_always_an_array [OF sample_a sample_a_text sample_a_matter, of "Str ''blog''"]
  note u = tags_always_an_array [OF sample_undated sample_undated_text sample_undated_matter,
             of "Str ''blog''"]
  from a have "parseTag sample_env (Str ''api'') = Inr (Obj [(''label'', Str ''api'')])"
    "parseTag sample_env (Str ''rest'') = Inr (Obj [(''label'', Str ''rest'')])"
    by (auto simp: sample_env_def)
  moreover from u have "map_sum id (\<lambda>r. map_of (frontmatter r) ''tags'')
     (getContentBySlug sample_env ''undated'' ''drafts'' (Str ''blog'')) = Inr (Some (Arr []))"
    by (simp add: sample_undated loaded_def)
  ultimately show ?thesis
    by (simp add: sample_a)
qed

subsection \<open>The slug and the path\<close>

lemma strip_mdx_append: "strip_mdx (base @ ''.mdx'') = base"
  by (simp add: strip_mdx_def suffix_def)

lemma strip_mdx_path: "strip_mdx s @ ''.mdx'' = (if suffix ''.mdx'' s then s else s @ ''.mdx'')"
  by (auto simp: strip_mdx_def suffix_def)

lemma getContentBySlug_read_fails:
  "readFileSync E (fullPath E s d) = Inl m \<Longrightarrow> getContentBySlug E s d ty = Inl (FileError m)"
  by (simp add: getContentBySlug_def)

lemma getContentBySlug_other_files:
  "f (fullPath E s d) = readFileSync E (fullPath E s d) \<Longrightarrow>
   getContentBySlug (E\<lparr>readFileSync := f\<rparr>) s d ty = getContentBySlug E s d ty"
proof -
  assume h: "f (fullPath E s d) = readFileSync E (fullPath E s d)"
  have p: "fullPath (E\<lparr>readFileSync := f\<rparr>) s d = fullPath E s d"
    by (simp add: fullPath_def)
  have t: "tags_of (E\<lparr>readFileSync := f\<rparr>) = tags_of E"
    by (rule ext) (simp add: tags_of_def split: jsval.splits)
  have n: "new_Date (E\<lparr>readFileSync := f\<rparr>) v = new_Date E v" for v
    by (cases v) simp_all
  have u: "toUTCString (E\<lparr>readFileSync := f\<rparr>) tv = toUTCString E tv" for tv
    by (cases tv) (simp_all add: toUTCString_def)
  show ?thesis
    by (simp add: getContentBySlug_def p h t n u Let_def split: sum.splits prod.splits)
qed

text \<open>
  Claim C9. Whether or not the slug argument ends in \<open>.mdx\<close>, \<open>getContentBySlug\<close> strips one
  trailing \<open>.mdx\<close> first and reads the file at \<open>join(directory, stripped + ".mdx")\<close>: the
  file name is the argument itself when it ended in \<open>.mdx\<close> and the argument with \<open>.mdx\<close>
  added otherwise, so no second extension is added. A failed read at that path is the
  failure of the call, the result does not depend on any other file, and the \<open>slug\<close> field
  of the returned record is the stripped form.
\<close>

theorem slug_is_stripped_before_the_read:
  "fullPath E s d = path_join E d (strip_mdx s @ ''.mdx'') \<and>
   strip_mdx (base @ ''.mdx'') = base \<and>
   (\<not> suffix ''.mdx'' s \<longrightarrow> strip_mdx s = s) \<and>
   strip_mdx s @ ''.mdx'' = (if suffix ''.mdx'' s then s else s @ ''.mdx'') \<and>
   (\<forall>m. readFileSync E (fullPath E s d) = Inl m \<longrightarrow>
          getContentBySlug E s d ty = Inl (FileError m)) \<and>
   (\<forall>r. getContentBySlug E s d ty = Inr r \<longrightarrow>
          slug r = strip_mdx s \<and> (\<exists>txt. readFileSync E (fullPath E s d) = Inr txt)) \<and>
   (\<forall>f. f (fullPath E s d) = readFileSync E (fullPath E s d) \<longrightarrow>
          getContentBySlug (E\<lparr>readFileSync := f\<rparr>) s d ty = getContentBySlug E s d ty)"
proof -
  have "\<forall>r. getContentBySlug E s d ty = Inr r \<longrightarrow>
          slug r = strip_mdx s \<and> (\<exists>txt. readFileSync E (fullPath E s d) = Inr txt)"
    by (auto dest: getContentBySlug_Inr)
  then show ?thesis
    using getContentBySlug_read_fails [of E s d _ ty] getContentBySlug_other_files [of _ E s d ty]
    by (simp add: fullPath_def strip_mdx_append strip_mdx_path) (simp add: strip_mdx_def fullPath_def)
qed

text \<open>Both spellings of the slug of \<open>blog/a.mdx\<close>, and a file that is not there.\<close>

theorem slug_is_stripped_before_the_read_witness:
  "fullPath sample_env ''a.mdx'' ''blog'' = ''blog/a.mdx'' \<and>
   fullPath sample_env ''a'' ''blog'' = ''blog/a.mdx'' \<and>
   map_sum id slug (getContentBySlug sample_env ''a.mdx'' ''blog'' (Str ''blog'')) = Inr ''a'' \<and>
   map_sum id slug (getContentBySlug sample_env ''a'' ''blog'' (Str ''blog'')) = Inr ''a'' \<and>
   getContentBySlug sample_env ''missing.mdx'' ''blog'' (Str ''blog'') =
     Inl (FileError ''ENOENT: no such file or directory, open blog/missing.mdx'')"
proof -
  note w = slug_is_stripped_before_the_read [of sample_env _ "''blog''" "''a''" "Str ''blog''"]
  note path = w [THEN conjunct1]
  note fails = w [THEN conjunct2, THEN conjunct2, THEN conjunct2, THEN conjunct2, THEN conjunct1,
                  rule_format]
  note returns = w [THEN conjunct2, THEN conjunct2, THEN conjunct2, THEN conjunct2,
                    THEN conjunct2, THEN conjunct1, rule_format, THEN conjunct1]
  have j: "path_join sample_env = (\<lambda>d f. d @ ''/'' @ f)"
    by (simp add: sample_env_def)
  have s1: "strip_mdx ''a.mdx'' = ''a''" and s2: "strip_mdx ''a'' = ''a''"
    and s3: "strip_mdx ''missing.mdx'' = ''missing''"
    by (simp_all add: strip_mdx_def suffix_def)
  have p1: "fullPath sample_env ''a.mdx'' ''blog'' = ''blog/a.mdx''"
    by (simp add: path [of "''a.mdx''"] j s1)
  have p2: "fullPath sample_env ''a'' ''blog'' = ''blog/a.mdx''"
    by (simp add: path [of "''a''"] j s2)
  have p3: "fullPath sample_env ''missing.mdx'' ''blog'' = ''blog/missing.mdx''"
    by (simp add: path [of "''missing.mdx''"] j s3)
  have a2: "getContentBySlug sample_env ''a'' ''blog'' (Str ''blog'') =
            getContentBySlug sample_env ''a.mdx'' ''blog'' (Str ''blog'')"
    by (simp only: getContentBySlug_def p1 p2 s1 s2)
  have "readFileSync sample_env ''blog/missing.mdx'' =
       Inl ''ENOENT: no such file or directory, open blog/missing.mdx''"
    by (simp add: sample_env_def sample_files_def)
  then have m: "getContentBySlug sample_env ''missing.mdx'' ''blog'' (Str ''blog'') =
     Inl (FileError ''ENOENT: no such file or directory, open blog/missing.mdx'')"
    by (intro fails) (simp only: p3)
  have "slug r = ''a''" if "getContentBySlug sample_env ''a.mdx'' ''blog'' (Str ''blog'') = Inr r" for r
    using returns [OF that] by (simp only: s1)
  with sample_a [of "Str ''blog''"]
  have r1: "map_sum id slug (getContentBySlug sample_env ''a.mdx'' ''blog'' (Str ''blog'')) = Inr ''a''"
    by simp
  show ?thesis
    by (simp only: p1 p2 a2 r1 m simp_thms)
qed

subsection \<open>Files without front matter\<close>

lemma tags_of_empty: "tags_of E [] = Inr (Arr [])"
  by (simp add: tags_of_def get_prop_def js_or_def)

text \<open>
  Claim C8. For a raw text without a front-matter delimiter block, or with a malformed one,
  the front-matter parsing inside \<open>getContentBySlug\<close> does not throw: it yields an empty
  metadata object and a body equal to the text. Stated on the parser as section 4.1 of
  the specification describes it; in \<open>getContentBySlug\<close> the record then has the text as
  \<open>content\<close> and a frontmatter of the three assigned keys only.
\<close>

theorem no_front_matter_gives_empty_metadata:
  assumes "split_block txt = None \<or>
           (\<exists>block body. split_block txt = Some (block, body) \<and> read_block block = None)"
  shows "matter_spec split_block read_block txt = Inr ([], txt) \<and>
         (\<forall>t. \<exists>res. matter_spec split_block read_block t = Inr res) \<and>
         (matter E = matter_spec split_block read_block \<and>
          readFileSync E (fullPath E s d) = Inr txt \<longrightarrow>
            (\<forall>m. getContentBySlug E s d ty \<noteq> Inl (FrontMatterError m)) \<and>
            (\<forall>r. getContentBySlug E s d ty = Inr r \<longrightarrow>
                   content r = txt \<and>
                   frontmatter r = build_frontmatter [] (Str ''Invalid Date'') (Arr []) ty))"
proof -
  from assms have m: "matter_spec split_block read_block txt = Inr ([], txt)"
    by (auto simp: matter_spec_def)
  have tot: "\<forall>t. \<exists>res. matter_spec split_block read_block t = Inr res"
    by (auto simp: matter_spec_def split: option.splits)
  have "(\<forall>m. getContentBySlug E s d ty \<noteq> Inl (FrontMatterError m)) \<and>
        (\<forall>r. getContentBySlug E s d ty = Inr r \<longrightarrow>
               content r = txt \<and>
               frontmatter r = build_frontmatter [] (Str ''Invalid Date'') (Arr []) ty)"
    if e: "matter E = matter_spec split_block read_block"
      and f: "readFileSync E (fullPath E s d) = Inr txt"
  proof -
    from e m have "matter E txt = Inr ([], txt)" by simp
    with f show ?thesis
      by (auto simp: getContentBySlug_def tags_of_empty get_prop_def toUTCString_def
            coalesce_def split: sum.splits)
  qed
  with m tot show ?thesis by blast
qed

text \<open>The post \<open>drafts/undated.mdx\<close> has no marker line.\<close>

theorem no_front_matter_gives_empty_metadata_witness:
  "fence_split ''---'' ''No front matter.'' = None \<and>
   matter sample_env ''No front matter.'' = Inr ([], ''No front matter.'') \<and>
   getContentBySlug sample_env ''undated'' ''drafts'' (Str ''blog'') =
     Inr \<lparr> slug = ''undated'',
           frontmatter = [(''date'', Str ''Invalid Date''), (''tags'', Arr []), (''type'', Str ''blog'')],
           content = ''No front matter.'',
           source = Some ''compiled: No front matter.'' \<rparr>"
proof -
  have h: "fence_split ''---'' ''No front matter.'' = None"
    by (simp add: fence_split_def)
  have e: "matter sample_env = matter_spec (fence_split ''---'') (map_of sample_blocks)"
    by (simp add: sample_env_def)
  from no_front_matter_gives_empty_metadata
         [of "fence_split ''---''" "''No front matter.''" "map_of sample_blocks",
          OF disjI1 [OF h]]
  have "matter_spec (fence_split ''---'') (map_of sample_blocks) ''No front matter.'' =
          Inr ([], ''No front matter.'')"
    by blast
  with h e show ?thesis
    by (simp add: sample_undated loaded_def)
qed

subsection \<open>The date of one record\<close>

lemma date_is_always_a_string:
  assumes "getContentBySlug E s d ty = Inr r"
    and "readFileSync E (fullPath E s d) = Inr txt"
    and "matter E txt = Inr (data, body)"
  shows "map_of (frontmatter r) ''date'' =
           Some (Str (case new_Date E (get_prop data ''date'') of
                        None \<Rightarrow> ''Invalid Date''
                      | Some t \<Rightarrow> utc_string E t))"
  using getContentBySlug_Inr [OF assms(1)] assms(2,3)
  by (auto simp: map_of_build_frontmatter toUTCString_def)

text \<open>
  Claim C1. For a file whose front-matter \<open>date\<close> is missing or does not parse, the returned
  frontmatter should have no \<open>date\<close> key, and never the string \<open>Invalid Date\<close>. The code
  evaluated at a post without front matter and at a post with \<open>date: not-a-date\<close>: the key
  is there and holds \<open>Invalid Date\<close>, since \<open>toUTCString\<close> of an invalid date is that string
  and the \<open>?? undefined\<close> after it never applies.
\<close>

theorem invalid_date_leaks_as_string:
  "map_sum id (\<lambda>r. map_of (frontmatter r) ''date'')
     (getContentBySlug sample_env ''undated'' ''drafts'' (Str ''blog'')) =
     Inr (Some (Str ''Invalid Date'')) \<and>
   map_sum id (\<lambda>r. map_of (frontmatter r) ''date'')
     (getContentBySlug sample_env ''unparsable'' ''mixed'' (Str ''blog'')) =
     Inr (Some (Str ''Invalid Date''))"
  by (simp add: sample_defs)

subsection \<open>Slim and full mode\<close>

lemma sample_blog_slim:
  "getAllContentFromDirectory sample_env ''blog'' ty (Some True) =
     Inr [\<lparr> slug = ''a'',
            frontmatter =
              [(''date'', Str ''Wed, 01 Jan 2020 00:00:00 GMT''),
               (''tags'', Arr [Obj [(''label'', Str ''api'')], Obj [(''label'', Str ''rest'')]]),
               (''type'', ty)],
            content = ''A'', source = None \<rparr>,
          (loaded ''b'' ''Wed, 01 Jan 2020 00:00:00 GMT'' ''B'' ty) \<lparr> source := None \<rparr>,
          (loaded ''c'' ''Sat, 01 Jun 2019 00:00:00 GMT'' ''C'' ty) \<lparr> source := None \<rparr>]"
  by (subst getAll_of_articles [OF sample_blog_articles]) (simp add: sort_defs)

lemma sample_blog_full:
  "getAllContentFromDirectory sample_env ''blog'' ty (Some False) =
     Inr [\<lparr> slug = ''a'',
            frontmatter =
              [(''date'', Str ''Wed, 01 Jan 2020 00:00:00 GMT''),
               (''tags'', Arr [Obj [(''label'', Str ''api'')], Obj [(''label'', Str ''rest'')]]),
               (''type'', ty)],
            content = ''A'', source = Some ''compiled: A'' \<rparr>,
          loaded ''b'' ''Wed, 01 Jan 2020 00:00:00 GMT'' ''B'' ty,
          loaded ''c'' ''Sat, 01 Jun 2019 00:00:00 GMT'' ''C'' ty]"
  by (subst getAll_of_articles [OF sample_blog_articles]) (simp add: sort_defs)

text \<open>
  Claim C5. In slim mode (the default) no returned record has a \<open>source\<close> field; in full
  mode every returned record has it, and there is one record for every slug of the
  listing.
\<close>

theorem slim_drops_source_full_keeps_it:
  assumes "getAllContentFromDirectory E d ty slim_arg = Inr rs"
  shows "(\<forall>r \<in> set rs. if slim_arg = Some False then source r \<noteq> None else source r = None) \<and>
         (\<forall>slugs. readdirSync E d = Inr slugs \<longrightarrow> mset (map slug rs) = mset (map strip_mdx slugs))"
proof -
  from getAll_Inr [OF assms] obtain as where a: "articles E d ty = Inr as"
    and rs: "rs = map (\<lambda>a. if slim_arg = Some False then a else trimmedArticle a)
                    (js_sort (by_date E) as)" by blast
  from articles_Inr [OF a] obtain slugs where s: "readdirSync E d = Inr slugs"
    and l: "load_each E d ty slugs = Inr as" by blast
  have src: "\<forall>r \<in> set rs. if slim_arg = Some False then source r \<noteq> None else source r = None"
    using load_each_sources [OF l] by (auto simp: rs set_js_sort trimmedArticle_def)
  have "map slug rs = map slug (js_sort (by_date E) as)"
    by (simp add: rs trimmedArticle_def)
  then have "mset (map slug rs) = mset (map slug as)"
    by (simp add: mset_js_sort)
  with load_each_slugs [OF l] s src show ?thesis by simp
qed

text \<open>The directory \<open>blog\<close> in both modes.\<close>

theorem slim_drops_source_full_keeps_it_witness:
  "map_sum id (map (\<lambda>r. (slug r, source r)))
     (getAllContentFromDirectory sample_env ''blog'' (Str ''blog'') (Some True)) =
     Inr [(''a'', None), (''b'', None), (''c'', None)] \<and>
   map_sum id (map (\<lambda>r. (slug r, source r)))
     (getAllContentFromDirectory sample_env ''blog'' (Str ''blog'') (Some False)) =
     Inr [(''a'', Some ''compiled: A''), (''b'', Some ''compiled: B''), (''c'', Some ''compiled: C'')]"
proof -
  note s = slim_drops_source_full_keeps_it [OF sample_blog_slim, of "Str ''blog''"]
  note f = slim_drops_source_full_keeps_it [OF sample_blog_full, of "Str ''blog''"]
  from s f show ?thesis
    by (simp add: sample_blog_slim sample_blog_full loaded_def)
qed

text \<open>
  Claim C10. Slim mode removes the \<open>source\<close> field only: the slim result is the full result
  with \<open>source\<close> taken out of each record, in the same order; \<open>slug\<close>, \<open>frontmatter\<close> and
  \<open>content\<close> of every record are unchanged. An omitted mode argument is slim mode.
\<close>

theorem slim_removes_only_source:
  "getAllContentFromDirectory E d ty (Some True) =
     map_sum id (map trimmedArticle) (getAllContentFromDirectory E d ty (Some False)) \<and>
   getAllContentFromDirectory E d ty None = getAllContentFromDirectory E d ty (Some True) \<and>
   slug (trimmedArticle a) = slug a \<and> frontmatter (trimmedArticle a) = frontmatter a \<and>
   content (trimmedArticle a) = content a \<and> source (trimmedArticle a) = None"
  by (cases "articles E d ty") (simp_all add: getAllContentFromDirectory_def trimmedArticle_def)

subsection \<open>Failure of one file\<close>

lemma tags_of_Inl:
  "tags_of E data = Inl e \<Longrightarrow> (\<exists>m. e = TagError m) \<or> (\<exists>m. e = TypeError m)"
proof -
  have mt: "map_tags f ts = Inl e \<Longrightarrow> \<exists>m. e = TagError m" for f ts
    by (induction ts) (auto split: sum.splits)
  assume "tags_of E data = Inl e"
  then show ?thesis
    by (auto simp: tags_of_def split: jsval.splits sum.splits dest: mt)
qed

lemma getContentBySlug_Inl:
  assumes "getContentBySlug E s d ty = Inl e"
  shows "(\<forall>m. e = FileError m \<longrightarrow> readFileSync E (fullPath E s d) = Inl m) \<and>
         (\<forall>m. e = CompileError m \<longrightarrow>
            (\<exists>txt data body. readFileSync E (fullPath E s d) = Inr txt \<and>
               matter E txt = Inr (data, body) \<and> serialize E body = Inl m))"
  using assms
  by (auto simp: getContentBySlug_def Let_def split: sum.splits prod.splits dest: tags_of_Inl)

text \<open>
  Claim C3, as amended. When at least one file of the listing fails to load,
  \<open>getAllContentFromDirectory\<close> fails as a whole and never returns a partial collection;
  the error it surfaces is the error of one of the failing files, as the file system or
  the compiler raised it: a read error is the file system's for the path of that file, a
  compile error is the compiler's for the body of that file. The loader adds nothing to
  it, and the compiler is given the body only.
\<close>

theorem aggregation_fails_as_a_whole:
  assumes "readdirSync E d = Inr slugs"
    and "s \<in> set slugs"
    and "getContentBySlug E s d ty = Inl e0"
  shows "\<exists>s' e. s' \<in> set slugs \<and>
           getAllContentFromDirectory E d ty slim_arg = Inl e \<and>
           getContentBySlug E s' d ty = Inl e \<and>
           (\<forall>m. e = FileError m \<longrightarrow> readFileSync E (fullPath E s' d) = Inl m) \<and>
           (\<forall>m. e = CompileError m \<longrightarrow>
              (\<exists>txt data body. readFileSync E (fullPath E s' d) = Inr txt \<and>
                 matter E txt = Inr (data, body) \<and> serialize E body = Inl m))"
proof -
  from promise_all_fails [OF assms(2,3)] obtain e where l: "promise_all E d ty slugs = Inl e"
    by blast
  from promise_all_Inl [OF l] obtain s' where s': "s' \<in> set slugs"
    and g: "getContentBySlug E s' d ty = Inl e" by blast
  from l assms(1) have "getAllContentFromDirectory E d ty slim_arg = Inl e"
    by (simp add: getAllContentFromDirectory_def articles_def)
  with s' g getContentBySlug_Inl [OF g] show ?thesis by blast
qed

text \<open>The directory \<open>books\<close>, whose one post does not compile.\<close>

theorem aggregation_fails_as_a_whole_witness:
  "readdirSync sample_env ''books'' = Inr [''one.mdx''] \<and>
   getContentBySlug sample_env ''one.mdx'' ''books'' (Str ''blog'') =
     Inl (CompileError ''Unexpected end of file in name'') \<and>
   getAllContentFromDirectory sample_env ''books'' (Str ''blog'') (Some False) =
     Inl (CompileError ''Unexpected end of file in name'')"
proof -
  note l = sample_listing(5)
  note b = sample_broken(1) [of "Str ''blog''"]
  from aggregation_fails_as_a_whole [OF l _ b, of "Some False"]
  obtain s' e where "s' \<in> set [''one.mdx'']"
    and "getAllContentFromDirectory sample_env ''books'' (Str ''blog'') (Some False) = Inl e"
    and "getContentBySlug sample_env s' ''books'' (Str ''blog'') = Inl e"
    by auto
  then have "getAllContentFromDirectory sample_env ''books'' (Str ''blog'') (Some False) =
     Inl (CompileError ''Unexpected end of file in name'')"
    using b by simp
  with l b show ?thesis by simp
qed

text \<open>
  Claim C3 as stated says that the error identifies the slug of the offending file. The
  directories \<open>books\<close> and \<open>talks\<close> fail on different slugs, \<open>one\<close> and \<open>two\<close>, with the
  same malformed body, and surface the same error.
\<close>

theorem compile_error_names_no_slug:
  "readdirSync sample_env ''books'' = Inr [''one.mdx''] \<and>
   readdirSync sample_env ''talks'' = Inr [''two.mdx''] \<and>
   getAllContentFromDirectory sample_env ''books'' (Str ''blog'') None =
     Inl (CompileError ''Unexpected end of file in name'') \<and>
   getAllContentFromDirectory sample_env ''talks'' (Str ''blog'') None =
     Inl (CompileError ''Unexpected end of file in name'')"
proof -
  have "find (\<lambda>s. fails_before_await sample_env s ''books'') [''one.mdx''] = None"
    "find (\<lambda>s. fails_before_await sample_env s ''talks'') [''two.mdx''] = None"
    by (simp_all add: fails_before_await_def sample_defs)
  then show ?thesis
    by (simp add: getAllContentFromDirectory_def articles_def sample_listing promise_all_late
          sample_broken)
qed

subsection \<open>Records without a valid date in the sort\<close>

lemma kept_fields_trimmedArticle: "kept_fields (trimmedArticle a) = kept_fields a"
  by (simp add: kept_fields_def trimmedArticle_def)

lemma map_kept_fields_shape:
  "map kept_fields (map (\<lambda>a. if c then a else trimmedArticle a) xs) = map kept_fields xs"
  by (simp add: kept_fields_trimmedArticle)

lemma precedes_by_date:
  "precedes (by_date E) a b \<longleftrightarrow>
     (case date_of E a of
        None \<Rightarrow> False
      | Some x \<Rightarrow> (case date_of E b of None \<Rightarrow> False | Some y \<Rightarrow> y < x))"
  by (auto simp: precedes_def by_date_def compareDesc_def split: option.splits)

text \<open>
  Claim C2, as amended. When every file loads, \<open>getAllContentFromDirectory\<close> returns every
  loaded record exactly once, whatever the dates: an absent or unparsable date never
  makes the aggregation throw. A record without a valid date is not ordered as the
  oldest: it compares equal to every other record, and in a directory where no two
  records have different valid dates the records are returned in listing order, the
  undated ones where they were listed. (Nothing is said of the order when an invalid
  date stands among records of different valid dates.)
\<close>

theorem undated_records_keep_listing_order:
  assumes "articles E d ty = Inr as"
  shows "\<exists>rs. getAllContentFromDirectory E d ty slim_arg = Inr rs \<and>
           mset (map kept_fields rs) = mset (map kept_fields as) \<and>
           ((\<forall>a \<in> set as. \<forall>b \<in> set as.
                date_of E a = None \<or> date_of E b = None \<or> date_of E a = date_of E b) \<longrightarrow>
            map kept_fields rs = map kept_fields as)"
proof -
  let ?shape = "\<lambda>a. if slim_arg = Some False then a else trimmedArticle a"
  let ?rs = "map ?shape (js_sort (by_date E) as)"
  have p: "mset (map kept_fields ?rs) = mset (map kept_fields as)"
    by (simp only: map_kept_fields_shape mset_map mset_js_sort)
  have "map kept_fields ?rs = map kept_fields as"
    if h: "\<forall>a \<in> set as. \<forall>b \<in> set as.
             date_of E a = None \<or> date_of E b = None \<or> date_of E a = date_of E b"
  proof -
    have "js_sort (by_date E) as = as"
    proof (rule js_sort_unmoved)
      fix x y
      assume "x \<in> set as" "y \<in> set as"
      with h have "date_of E x = None \<or> date_of E y = None \<or> date_of E x = date_of E y"
        by blast
      then show "\<not> precedes (by_date E) x y"
        by (auto simp: precedes_by_date split: option.splits)
    qed
    then show ?thesis
      by (simp only: map_kept_fields_shape)
  qed
  with p getAll_of_articles [OF assms, of slim_arg] show ?thesis
    by blast
qed

text \<open>The directory \<open>drafts\<close>: a post without front matter, listed first, and a dated one.\<close>

theorem undated_records_keep_listing_order_witness:
  "articles sample_env ''drafts'' (Str ''blog'') =
     Inr [loaded ''undated'' ''Invalid Date'' ''No front matter.'' (Str ''blog''),
          loaded ''new'' ''Wed, 01 Jan 2020 00:00:00 GMT'' ''N'' (Str ''blog'')] \<and>
   date_of sample_env (loaded ''undated'' ''Invalid Date'' ''No front matter.'' (Str ''blog'')) = None \<and>
   date_of sample_env (loaded ''new'' ''Wed, 01 Jan 2020 00:00:00 GMT'' ''N'' (Str ''blog'')) =
     Some 1577836800000 \<and>
   (\<exists>rs. getAllContentFromDirectory sample_env ''drafts'' (Str ''blog'') (Some False) = Inr rs \<and>
         map kept_fields rs =
         map kept_fields
           [loaded ''undated'' ''Invalid Date'' ''No front matter.'' (Str ''blog''),
            loaded ''new'' ''Wed, 01 Jan 2020 00:00:00 GMT'' ''N'' (Str ''blog'')])"
proof -
  note a = sample_drafts_articles [of "Str ''blog''"]
  have u: "date_of sample_env (loaded ''undated'' ''Invalid Date'' ''No front matter.'' (Str ''blog''))
             = None"
    by (simp add: sort_defs)
  have n: "date_of sample_env (loaded ''new'' ''Wed, 01 Jan 2020 00:00:00 GMT'' ''N'' (Str ''blog''))
             = Some 1577836800000"
    by (simp add: sort_defs)
  have h: "\<forall>x \<in> set [loaded ''undated'' ''Invalid Date'' ''No front matter.'' (Str ''blog''),
                        loaded ''new'' ''Wed, 01 Jan 2020 00:00:00 GMT'' ''N'' (Str ''blog'')].
           \<forall>y \<in> set [loaded ''undated'' ''Invalid Date'' ''No front matter.'' (Str ''blog''),
                        loaded ''new'' ''Wed, 01 Jan 2020 00:00:00 GMT'' ''N'' (Str ''blog'')].
             date_of sample_env x = None \<or> date_of sample_env y = None \<or>
             date_of sample_env x = date_of sample_env y"
    using u by simp
  from undated_records_keep_listing_order [OF a, of "Some False"] h
  have "\<exists>rs. getAllContentFromDirectory sample_env ''drafts'' (Str ''blog'') (Some False) = Inr rs \<and>
         map kept_fields rs =
         map kept_fields
           [loaded ''undated'' ''Invalid Date'' ''No front matter.'' (Str ''blog''),
            loaded ''new'' ''Wed, 01 Jan 2020 00:00:00 GMT'' ''N'' (Str ''blog'')]"
    by blast
  with a u n show ?thesis by blast
qed

text \<open>
  Claim C2 as stated says that a record without a valid date comes after every record with
  one. In \<open>drafts\<close> the undated post is listed first and stays first.
\<close>

theorem undated_record_stays_first:
  "map_sum id (map (\<lambda>r. (slug r, date_of sample_env r)))
     (getAllContentFromDirectory sample_env ''drafts'' (Str ''blog'') None) =
     Inr [(''undated'', None), (''new'', Some 1577836800000)]"
  by (subst getAll_of_articles [OF sample_drafts_articles]) (simp add: sort_defs)

subsection \<open>Newest first, stable\<close>

lemma not_older_trimmedArticle:
  "not_older E (if c then a else trimmedArticle a) (if c then b else trimmedArticle b) =
   not_older E a b"
  by (simp add: not_older_def date_of_trimmedArticle split: option.splits)

lemma js_sort_by_date_newest_first:
  assumes "\<forall>a \<in> set as. date_of E a \<noteq> None"
  shows "sorted_wrt (not_older E) (js_sort (by_date E) as)"
proof -
  have "sorted_wrt (\<lambda>a b. the (date_of E b) \<le> the (date_of E a)) (js_sort (by_date E) as)"
  proof (rule sorted_js_sort)
    fix x y
    assume x: "x \<in> set as" and y: "y \<in> set as"
    from assms x obtain tx where "date_of E x = Some tx" by auto
    moreover from assms y obtain tz where "date_of E y = Some tz" by auto
    ultimately show "precedes (by_date E) x y \<longleftrightarrow> the (date_of E y) < the (date_of E x)"
      by (simp add: precedes_by_date)
  qed
  moreover have "not_older E a b"
    if "a \<in> set (js_sort (by_date E) as)" "b \<in> set (js_sort (by_date E) as)"
      "the (date_of E b) \<le> the (date_of E a)" for a b
  proof -
    from that(1) assms obtain ta where "date_of E a = Some ta"
      by (auto simp: set_js_sort)
    moreover from that(2) assms obtain tb where "date_of E b = Some tb"
      by (auto simp: set_js_sort)
    ultimately show ?thesis
      using that(3) by (simp add: not_older_def)
  qed
  ultimately show ?thesis
    by (rule sorted_wrt_mono_rel [rotated])
qed

lemma js_sort_by_date_stable:
  "filter (\<lambda>r. date_of E r = k) (js_sort (by_date E) as) = filter (\<lambda>r. date_of E r = k) as"
  by (rule filter_js_sort) (auto simp: precedes_by_date split: option.splits)

lemma sample_news_sorted:
  "getAllContentFromDirectory sample_env ''news'' ty (Some False) =
     Inr [loaded ''a'' ''Wed, 01 Jan 2020 00:00:00 GMT'' ''A'' ty,
          loaded ''b'' ''Wed, 01 Jan 2020 00:00:00 GMT'' ''B'' ty,
          loaded ''c'' ''Sat, 01 Jun 2019 00:00:00 GMT'' ''C'' ty]"
  by (subst getAll_of_articles [OF sample_news_articles]) (simp add: sort_defs)

text \<open>
  Claim C4, as amended. For every directory whose records all have a parsable date, the
  records are returned sorted by date, newest first, and the sort is stable: the records
  of any one date come in the order they had before sorting.
\<close>

theorem newest_first_and_stable_when_dates_valid:
  assumes "articles E d ty = Inr as"
    and "\<forall>a \<in> set as. date_of E a \<noteq> None"
  shows "\<exists>rs. getAllContentFromDirectory E d ty slim_arg = Inr rs \<and>
           sorted_wrt (not_older E) rs \<and>
           (\<forall>k. map kept_fields (filter (\<lambda>r. date_of E r = k) rs) =
                 map kept_fields (filter (\<lambda>r. date_of E r = k) as))"
proof -
  let ?shape = "\<lambda>a. if slim_arg = Some False then a else trimmedArticle a"
  let ?rs = "map ?shape (js_sort (by_date E) as)"
  have srt: "sorted_wrt (not_older E) ?rs"
    using js_sort_by_date_newest_first [OF assms(2)]
    by (simp add: sorted_wrt_map not_older_trimmedArticle)
  have "filter (\<lambda>r. date_of E r = k) ?rs =
        map ?shape (filter (\<lambda>r. date_of E r = k) (js_sort (by_date E) as))" for k
    by (simp add: filter_map o_def date_of_trimmedArticle)
  then have stb: "map kept_fields (filter (\<lambda>r. date_of E r = k) ?rs) =
                  map kept_fields (filter (\<lambda>r. date_of E r = k) as)" for k
    by (simp only: js_sort_by_date_stable map_kept_fields_shape)
  from srt stb getAll_of_articles [OF assms(1), of slim_arg] show ?thesis
    by blast
qed

text \<open>The directory \<open>news\<close>, listed as C (2019), A (2020), B (2020): the result is A, B, C.\<close>

theorem newest_first_and_stable_when_dates_valid_witness:
  "articles sample_env ''news'' (Str ''blog'') =
     Inr [loaded ''c'' ''Sat, 01 Jun 2019 00:00:00 GMT'' ''C'' (Str ''blog''),
          loaded ''a'' ''Wed, 01 Jan 2020 00:00:00 GMT'' ''A'' (Str ''blog''),
          loaded ''b'' ''Wed, 01 Jan 2020 00:00:00 GMT'' ''B'' (Str ''blog'')] \<and>
   getAllContentFromDirectory sample_env ''news'' (Str ''blog'') (Some False) =
     Inr [loaded ''a'' ''Wed, 01 Jan 2020 00:00:00 GMT'' ''A'' (Str ''blog''),
          loaded ''b'' ''Wed, 01 Jan 2020 00:00:00 GMT'' ''B'' (Str ''blog''),
          loaded ''c'' ''Sat, 01 Jun 2019 00:00:00 GMT'' ''C'' (Str ''blog'')] \<and>
   sorted_wrt (not_older sample_env)
     [loaded ''a'' ''Wed, 01 Jan 2020 00:00:00 GMT'' ''A'' (Str ''blog''),
      loaded ''b'' ''Wed, 01 Jan 2020 00:00:00 GMT'' ''B'' (Str ''blog''),
      loaded ''c'' ''Sat, 01 Jun 2019 00:00:00 GMT'' ''C'' (Str ''blog'')]"
proof -
  note a = sample_news_articles [of "Str ''blog''"]
  note r = sample_news_sorted [of "Str ''blog''"]
  have v: "\<forall>x \<in> set [loaded ''c'' ''Sat, 01 Jun 2019 00:00:00 GMT'' ''C'' (Str ''blog''),
                        loaded ''a'' ''Wed, 01 Jan 2020 00:00:00 GMT'' ''A'' (Str ''blog''),
                        loaded ''b'' ''Wed, 01 Jan 2020 00:00:00 GMT'' ''B'' (Str ''blog'')].
             date_of sample_env x \<noteq> None"
    by (simp add: sort_defs)
  from newest_first_and_stable_when_dates_valid [OF a v, of "Some False"] r
  have "sorted_wrt (not_older sample_env)
     [loaded ''a'' ''Wed, 01 Jan 2020 00:00:00 GMT'' ''A'' (Str ''blog''),
      loaded ''b'' ''Wed, 01 Jan 2020 00:00:00 GMT'' ''B'' (Str ''blog''),
      loaded ''c'' ''Sat, 01 Jun 2019 00:00:00 GMT'' ''C'' (Str ''blog'')]"
    by auto
  with a r show ?thesis by simp
qed

text \<open>
  Claim C4 as stated is for every directory. In \<open>mixed\<close> a post with an unparsable date
  stands between an older and a newer one; it compares equal to both, nothing moves, and
  the older post stays ahead of the newer one.
\<close>

theorem unparsable_date_breaks_the_order:
  "map_sum id (map (\<lambda>r. (slug r, date_of sample_env r)))
     (getAllContentFromDirectory sample_env ''mixed'' (Str ''blog'') None) =
     Inr [(''old'', Some 1559347200000), (''unparsable'', None), (''new'', Some 1577836800000)]"
  by (subst getAll_of_articles [OF sample_mixed_articles]) (simp add: sort_defs)

end
